theory Spec2Isabelle
  imports Main
begin

section \<open>The Supabase connector of the to-do list template\<close>

text \<open>
  The connector (\<^verbatim>\<open>SupabaseConnector\<close>) bridges the local PowerSync database and the
  Supabase backend. Two of its methods carry decisions: \<^verbatim>\<open>uploadData\<close>, which replays
  one pending CRUD transaction against the backend, and \<^verbatim>\<open>init\<close>, which fetches the
  session and tells the registered listeners.

  JavaScript values are modelled as far as the connector inspects them: the
  \<^verbatim>\<open>code\<close> property of a caught exception is tested with \<^verbatim>\<open>typeof\<close>, so it is a
  \<open>js_value\<close>; column values are numbers, strings or null. Strings are lists of
  8-bit characters. Console output is not modelled, and with it the variable
  \<^verbatim>\<open>lastOp\<close>, which is only ever printed.
\<close>

subsection \<open>JavaScript values, objects and errors\<close>

datatype js_value =
    JsUndefined
  | JsNull
  | JsBool bool
  | JsNumber int
  | JsString string

text \<open>An object literal: its own properties in insertion order.\<close>

type_synonym js_object = "(string \<times> js_value) list"

text \<open>
  \<^verbatim>\<open>{ ...obj }\<close>: spreading \<^verbatim>\<open>undefined\<close> copies nothing.
\<close>

fun spread :: "js_object option \<Rightarrow> js_object" where
  "spread None = []"
| "spread (Some obj) = obj"

text \<open>
  \<^verbatim>\<open>{ ...obj, k: v }\<close>: an existing property keeps its place and takes the new value,
  a new property goes last.
\<close>

fun set_prop :: "string \<Rightarrow> js_value \<Rightarrow> js_object \<Rightarrow> js_object" where
  "set_prop k v [] = [(k, v)]"
| "set_prop k v (p # ps) = (if fst p = k then (k, v) # ps else p # set_prop k v ps)"

text \<open>
  An error object: what a rejected promise carries, what \<^verbatim>\<open>result.error\<close> holds, and
  what \<^verbatim>\<open>new Error(..)\<close> builds. A property that is absent reads as \<^verbatim>\<open>undefined\<close>.
\<close>

record js_error =
  name :: string
  message :: string
  code :: js_value

definition new_Error :: "string \<Rightarrow> js_error" where
  "new_Error msg = \<lparr>name = ''Error'', message = msg, code = JsUndefined\<rparr>"

text \<open>Reading a property of \<^verbatim>\<open>undefined\<close>.\<close>

definition TypeError_undefined :: "string \<Rightarrow> js_error" where
  "TypeError_undefined prop =
     \<lparr>name = ''TypeError'',
      message = ''Cannot read properties of undefined (reading '' @ [CHR 0x27] @ prop @ [CHR 0x27] @ '')'',
      code = JsUndefined\<rparr>"

subsection \<open>The fatal response codes\<close>

text \<open>
  The three regular expressions of \<^verbatim>\<open>FATAL_RESPONSE_CODES\<close> are anchored at both ends
  and consist of literal characters and dots. Without the \<^verbatim>\<open>s\<close> flag a dot matches
  any character but a line terminator; without the \<^verbatim>\<open>m\<close> flag \<^verbatim>\<open>$\<close> matches at the
  end of the input only.
\<close>

datatype atom = Lit char | Dot

type_synonym regex = "atom list"

fun atom_matches :: "atom \<Rightarrow> char \<Rightarrow> bool" where
  "atom_matches (Lit c) x = (x = c)"
| "atom_matches Dot x = (x \<noteq> CHR 0x0A \<and> x \<noteq> CHR 0x0D)"

fun regex_test :: "regex \<Rightarrow> string \<Rightarrow> bool" where
  "regex_test [] [] = True"
| "regex_test (a # as) (x # xs) = (atom_matches a x \<and> regex_test as xs)"
| "regex_test _ _ = False"

definition FATAL_RESPONSE_CODES :: "regex list" where
  "FATAL_RESPONSE_CODES =
     [ [Lit CHR ''2'', Lit CHR ''2'', Dot, Dot, Dot],
       [Lit CHR ''2'', Lit CHR ''3'', Dot, Dot, Dot],
       [Lit CHR ''4'', Lit CHR ''2'', Lit CHR ''5'', Lit CHR ''0'', Lit CHR ''1''] ]"

text \<open>\<^verbatim>\<open>Array.prototype.some\<close>.\<close>

fun array_some :: "('a \<Rightarrow> bool) \<Rightarrow> 'a list \<Rightarrow> bool" where
  "array_some p [] = False"
| "array_some p (x # xs) = (p x \<or> array_some p xs)"

text \<open>
  The test of the \<^verbatim>\<open>catch\<close> block:
  \<^verbatim>\<open>typeof ex.code == "string" && FATAL_RESPONSE_CODES.some((regex) => regex.test(ex.code))\<close>.
\<close>

fun is_fatal_code :: "js_value \<Rightarrow> bool" where
  "is_fatal_code (JsString c) = array_some (\<lambda>regex. regex_test regex c) FATAL_RESPONSE_CODES"
| "is_fatal_code _ = False"

definition is_fatal :: "js_error \<Rightarrow> bool" where
  "is_fatal ex = is_fatal_code (code ex)"

subsection \<open>CRUD entries and backend requests\<close>

text \<open>
  \<^verbatim>\<open>UpdateType\<close> is an enumeration of three values. The \<^verbatim>\<open>switch\<close> of
  \<^verbatim>\<open>uploadData\<close> has no default branch, so what it does with any other run-time value
  is part of its behaviour: \<open>Unlisted\<close> stands for such a value.
\<close>

datatype UpdateType = PUT | PATCH | DELETE | Unlisted string

record CrudEntry =
  table :: string
  op :: UpdateType
  id' :: string
  opData :: "js_object option"

text \<open>The filter \<^verbatim>\<open>.eq(column, value)\<close> and the three requests the connector builds.\<close>

datatype filter = Eq string string

datatype request =
    Upsert string js_object
  | Update string "js_object option" filter
  | Delete string filter

text \<open>
  What awaiting a request yields: a result object whose \<^verbatim>\<open>error\<close> is null or set, or
  a rejection.
\<close>

datatype response = Resolved "js_error option" | Rejected js_error

text \<open>
  The backend is given by its answers: \<open>backend n\<close> is what the \<open>n\<close>-th request
  awaited by one call of \<^verbatim>\<open>uploadData\<close> yields (counting from 0). Every behaviour
  of a real backend during one call is such a sequence.
\<close>

type_synonym backend = "nat \<Rightarrow> response"

text \<open>
  The local database as the connector sees it: the queue of pending transactions
  (\<^verbatim>\<open>getNextCrudTransaction\<close> returns the first one or null,
  \<^verbatim>\<open>transaction.complete()\<close> removes it), and the number of completions written. The
  requests sent to the backend are logged, oldest first. The calls into the local
  database are taken not to fail.
\<close>

record world =
  crud_queue :: "CrudEntry list list"
  completes :: nat
  sent :: "request list"

definition getNextCrudTransaction :: "world \<Rightarrow> CrudEntry list option" where
  "getNextCrudTransaction w = (case crud_queue w of [] \<Rightarrow> None | tx # _ \<Rightarrow> Some tx)"

definition complete :: "world \<Rightarrow> world" where
  "complete w = w\<lparr>crud_queue := tl (crud_queue w), completes := Suc (completes w)\<rparr>"

subsection \<open>uploadData\<close>

text \<open>
  The \<^verbatim>\<open>switch\<close> on \<^verbatim>\<open>op.op\<close>: the request that is built and awaited, or none when no
  case is taken and \<^verbatim>\<open>result\<close> stays undefined.
\<close>

definition request_for :: "CrudEntry \<Rightarrow> request option" where
  "request_for e =
     (case op e of
        PUT \<Rightarrow> Some (Upsert (table e) (set_prop ''id'' (JsString (id' e)) (spread (opData e))))
      | PATCH \<Rightarrow> Some (Update (table e) (opData e) (Eq ''id'' (id' e)))
      | DELETE \<Rightarrow> Some (Delete (table e) (Eq ''id'' (id' e)))
      | Unlisted _ \<Rightarrow> None)"

text \<open>
  The body of the \<^verbatim>\<open>try\<close> block up to \<^verbatim>\<open>transaction.complete()\<close>: the loop over
  \<^verbatim>\<open>transaction.crud\<close>. It yields the exception thrown, if any. \<open>n\<close> counts the requests
  awaited so far.
\<close>

fun crud_loop :: "backend \<Rightarrow> nat \<Rightarrow> CrudEntry list \<Rightarrow> world \<Rightarrow> js_error option \<times> world" where
  "crud_loop be n [] w = (None, w)"
| "crud_loop be n (e # es) w =
     (case request_for e of
        None \<Rightarrow> (Some (TypeError_undefined ''error''), w)
      | Some rq \<Rightarrow>
          (let w1 = w\<lparr>sent := sent w @ [rq]\<rparr> in
           case be n of
             Rejected ex \<Rightarrow> (Some ex, w1)
           | Resolved (Some err) \<Rightarrow>
               (Some (new_Error (''Could not update Supabase. Received error: '' @ message err)), w1)
           | Resolved None \<Rightarrow> crud_loop be (Suc n) es w1))"

text \<open>
  \<^verbatim>\<open>uploadData\<close>: \<open>Inr ()\<close> when the call returns, \<open>Inl ex\<close> when it throws \<open>ex\<close>.
\<close>

definition uploadData :: "backend \<Rightarrow> world \<Rightarrow> (js_error + unit) \<times> world" where
  "uploadData be w =
     (case getNextCrudTransaction w of
        None \<Rightarrow> (Inr (), w)
      | Some transaction \<Rightarrow>
          (case crud_loop be 0 transaction w of
             (None, w1) \<Rightarrow> (Inr (), complete w1)
           | (Some ex, w1) \<Rightarrow>
               if is_fatal ex then (Inr (), complete w1) else (Inl ex, w1)))"

subsection \<open>Sessions and listeners\<close>

datatype Session = Session (access_token: string) (expires_at: "nat option")

text \<open>
  A listener registers any subset of the two callbacks. A callback is modelled by the
  record of its invocation: \<open>listener_id\<close> tells the listeners apart, and the two flags
  say which callbacks the listener defines.
\<close>

record SupabaseConnectorListener =
  listener_id :: nat
  initialized :: bool
  sessionStarted :: bool

datatype notification = Initialized nat | SessionStarted nat Session

text \<open>
  The connector's fields, the listeners of its observer base class in registration
  order, the callbacks invoked so far (oldest first), the number of calls of
  \<^verbatim>\<open>client.auth.getSession()\<close> made by \<^verbatim>\<open>init\<close>, and the number of calls of \<^verbatim>\<open>init\<close>
  that are suspended at \<^verbatim>\<open>await this.client.auth.getSession()\<close>.
\<close>

record SupabaseConnector =
  ready :: bool
  currentSession :: "Session option"
  listeners :: "SupabaseConnectorListener list"
  notified :: "notification list"
  getSession_calls :: nat
  awaiting :: nat


text \<open>
  The listeners are kept in a set of objects: registering a listener that is in the set
  keeps it once. The function that \<^verbatim>\<open>registerListener\<close> returns takes the listener out
  again.
\<close>

definition registerListener :: "SupabaseConnectorListener \<Rightarrow> SupabaseConnector \<Rightarrow> SupabaseConnector" where
  "registerListener l c =
     (if listener_id l \<in> listener_id ` set (listeners c) then c
      else c\<lparr>listeners := listeners c @ [l]\<rparr>)"

definition dispose :: "nat \<Rightarrow> SupabaseConnector \<Rightarrow> SupabaseConnector" where
  "dispose n c = c\<lparr>listeners := filter (\<lambda>l. listener_id l \<noteq> n) (listeners c)\<rparr>"











section \<open>Properties\<close>

subsection \<open>The loop over the entries of a transaction\<close>

text \<open>The loop only sends requests: it leaves the queue and the completions alone.\<close>

lemma crud_loop_store:
  "crud_queue (snd (crud_loop be n es w)) = crud_queue w \<and>
   completes (snd (crud_loop be n es w)) = completes w"
proof (induction es arbitrary: n w)
  case Nil
  show ?case by simp
next
  case (Cons e es)
  show ?case
  proof (cases "request_for e")
    case None
    then show ?thesis by simp
  next
    case (Some rq)
    show ?thesis
    proof (cases "be n")
      case (Rejected ex)
      with Some show ?thesis by simp
    next
      case (Resolved r)
      show ?thesis
      proof (cases r)
        case None
        with Some Resolved Cons.IH [of "Suc n" "w\<lparr>sent := sent w @ [rq]\<rparr>"]
        show ?thesis by simp
      next
        case (Some err)
        with \<open>request_for e = Some rq\<close> Resolved show ?thesis by simp
      qed
    qed
  qed
qed

text \<open>
  While the entries have a listed kind and their requests succeed, the loop moves on:
  after \<open>k\<close> such entries it stands at entry \<open>k\<close> with \<open>k\<close> more requests sent.
\<close>

lemma crud_loop_skip:
  assumes "k \<le> length es"
    and "\<forall>i<k. request_for (es ! i) \<noteq> None \<and> be (n + i) = Resolved None"
  shows "crud_loop be n es w =
         crud_loop be (n + k) (drop k es) (w\<lparr>sent := sent w @ map (the \<circ> request_for) (take k es)\<rparr>)"
  using assms
proof (induction k arbitrary: es n w)
  case 0
  show ?case by simp
next
  case (Suc k)
  then obtain e es' where es: "es = e # es'" by (cases es) auto
  from Suc.prems(2) have "request_for (es ! 0) \<noteq> None \<and> be (n + 0) = Resolved None"
    by blast
  with es obtain rq where rq: "request_for e = Some rq" and b0: "be n = Resolved None"
    by auto
  have len: "k \<le> length es'" using Suc.prems(1) es by simp
  have rest: "\<forall>i<k. request_for (es' ! i) \<noteq> None \<and> be (Suc n + i) = Resolved None"
  proof (intro allI impI)
    fix i assume "i < k"
    then have "Suc i < Suc k" by simp
    with Suc.prems(2) have "request_for (es ! Suc i) \<noteq> None \<and> be (n + Suc i) = Resolved None"
      by blast
    with es show "request_for (es' ! i) \<noteq> None \<and> be (Suc n + i) = Resolved None" by simp
  qed
  from Suc.IH [OF len rest, of "w\<lparr>sent := sent w @ [rq]\<rparr>"] es rq b0
  show ?case by simp
qed

lemma request_for_known: "op e \<in> {PUT, PATCH, DELETE} \<Longrightarrow> request_for e \<noteq> None"
  by (auto simp: request_for_def)

lemma map_Some_the:
  "\<forall>x\<in>set xs. f x \<noteq> None \<Longrightarrow> map Some (map (the \<circ> f) xs) = map f xs"
  by (induction xs) auto

lemma take_requests:
  assumes "k \<le> length es" and "\<forall>i<k. request_for (es ! i) \<noteq> None"
  shows "map Some (map (the \<circ> request_for) (take k es)) = map request_for (take k es)"
proof (rule map_Some_the, rule ballI)
  fix x assume "x \<in> set (take k es)"
  then obtain i where "i < length (take k es)" and "x = take k es ! i"
    by (auto simp: in_set_conv_nth)
  with assms show "request_for x \<noteq> None" by simp
qed

text \<open>Where the loop stops: a result with an error, a rejection, an unlisted kind.\<close>

lemma crud_loop_fault:
  assumes k: "k < length tx"
    and ok: "\<forall>i<k. op (tx ! i) \<in> {PUT, PATCH, DELETE} \<and> be i = Resolved None"
    and kind: "op (tx ! k) \<in> {PUT, PATCH, DELETE}"
    and fault: "be k = Resolved (Some err)"
  shows "crud_loop be 0 tx w =
           (Some (new_Error (''Could not update Supabase. Received error: '' @ message err)),
            w\<lparr>sent := sent w @ map (the \<circ> request_for) (take (Suc k) tx)\<rparr>)"
proof -
  from ok have ok': "\<forall>i<k. request_for (tx ! i) \<noteq> None \<and> be (0 + i) = Resolved None"
    using request_for_known by simp
  from k have le: "k \<le> length tx" by simp
  from kind obtain rq where rq: "request_for (tx ! k) = Some rq"
    using request_for_known [of "tx ! k"] by auto
  from k have dr: "drop k tx = tx ! k # drop (Suc k) tx"
    by (simp add: Cons_nth_drop_Suc)
  from k have tk: "take (Suc k) tx = take k tx @ [tx ! k]"
    by (simp add: take_Suc_conv_app_nth)
  show ?thesis
    using crud_loop_skip [OF le ok', of w] dr tk rq fault by simp
qed

lemma crud_loop_rejected:
  assumes k: "k < length tx"
    and ok: "\<forall>i<k. op (tx ! i) \<in> {PUT, PATCH, DELETE} \<and> be i = Resolved None"
    and kind: "op (tx ! k) \<in> {PUT, PATCH, DELETE}"
    and rej: "be k = Rejected ex"
  shows "crud_loop be 0 tx w =
           (Some ex, w\<lparr>sent := sent w @ map (the \<circ> request_for) (take (Suc k) tx)\<rparr>)"
proof -
  from ok have ok': "\<forall>i<k. request_for (tx ! i) \<noteq> None \<and> be (0 + i) = Resolved None"
    using request_for_known by simp
  from k have le: "k \<le> length tx" by simp
  from kind obtain rq where rq: "request_for (tx ! k) = Some rq"
    using request_for_known [of "tx ! k"] by auto
  from k have dr: "drop k tx = tx ! k # drop (Suc k) tx"
    by (simp add: Cons_nth_drop_Suc)
  from k have tk: "take (Suc k) tx = take k tx @ [tx ! k]"
    by (simp add: take_Suc_conv_app_nth)
  show ?thesis
    using crud_loop_skip [OF le ok', of w] dr tk rq rej by simp
qed

lemma crud_loop_unlisted:
  assumes k: "k < length tx"
    and ok: "\<forall>i<k. op (tx ! i) \<in> {PUT, PATCH, DELETE} \<and> be i = Resolved None"
    and kind: "op (tx ! k) = Unlisted s"
  shows "crud_loop be 0 tx w =
           (Some (TypeError_undefined ''error''),
            w\<lparr>sent := sent w @ map (the \<circ> request_for) (take k tx)\<rparr>)"
proof -
  from ok have ok': "\<forall>i<k. request_for (tx ! i) \<noteq> None \<and> be (0 + i) = Resolved None"
    using request_for_known by simp
  from k have le: "k \<le> length tx" by simp
  from kind have rq: "request_for (tx ! k) = None"
    by (simp add: request_for_def)
  from k have dr: "drop k tx = tx ! k # drop (Suc k) tx"
    by (simp add: Cons_nth_drop_Suc)
  show ?thesis
    using crud_loop_skip [OF le ok', of w] dr rq by simp
qed

text \<open>The requests sent are those of a prefix of the transaction, in its order.\<close>

lemma crud_loop_sent:
  "\<exists>m\<le>length es. map Some (sent (snd (crud_loop be n es w)))
                     = map Some (sent w) @ map request_for (take m es)"
proof (induction es arbitrary: n w)
  case Nil
  show ?case by simp
next
  case (Cons e es)
  show ?case
  proof (cases "request_for e")
    case None
    then have "map Some (sent (snd (crud_loop be n (e # es) w)))
                 = map Some (sent w) @ map request_for (take 0 (e # es))"
      by simp
    then show ?thesis by blast
  next
    case (Some rq)
    let ?w1 = "w\<lparr>sent := sent w @ [rq]\<rparr>"
    show ?thesis
    proof (cases "be n = Resolved None")
      case True
      from Cons.IH [of "Suc n" ?w1] obtain m where m: "m \<le> length es"
        and eq: "map Some (sent (snd (crud_loop be (Suc n) es ?w1)))
                   = map Some (sent ?w1) @ map request_for (take m es)"
        by blast
      from eq Some True
      have "map Some (sent (snd (crud_loop be n (e # es) w)))
              = map Some (sent w) @ map request_for (take (Suc m) (e # es))"
        by simp
      moreover from m have "Suc m \<le> length (e # es)" by simp
      ultimately show ?thesis by blast
    next
      case False
      with Some have "sent (snd (crud_loop be n (e # es) w)) = sent w @ [rq]"
        by (cases "be n"; auto simp: Let_def split: option.split)
      with Some have "map Some (sent (snd (crud_loop be n (e # es) w)))
              = map Some (sent w) @ map request_for (take (Suc 0) (e # es))"
        by simp
      moreover have "Suc 0 \<le> length (e # es)" by simp
      ultimately show ?thesis by blast
    qed
  qed
qed

lemma uploadData_sent:
  "getNextCrudTransaction w = Some tx \<Longrightarrow>
   sent (snd (uploadData be w)) = sent (snd (crud_loop be 0 tx w))"
  by (simp add: uploadData_def complete_def split: prod.split option.split)

text \<open>Either the call returns and has completed the transaction, or it throws and has not.\<close>

lemma uploadData_store:
  assumes "getNextCrudTransaction w = Some tx"
  shows "(fst (uploadData be w) = Inr () \<and>
          completes (snd (uploadData be w)) = Suc (completes w) \<and>
          crud_queue (snd (uploadData be w)) = tl (crud_queue w)) \<or>
         (isl (fst (uploadData be w)) \<and>
          completes (snd (uploadData be w)) = completes w \<and>
          crud_queue (snd (uploadData be w)) = crud_queue w)"
proof -
  obtain r w1 where loop: "crud_loop be 0 tx w = (r, w1)" by (cases "crud_loop be 0 tx w")
  with crud_loop_store [of be 0 tx w]
  have st: "crud_queue w1 = crud_queue w" "completes w1 = completes w" by simp_all
  show ?thesis
  proof (cases r)
    case None
    with assms loop st show ?thesis by (simp add: uploadData_def complete_def)
  next
    case (Some ex)
    with assms loop st show ?thesis by (simp add: uploadData_def complete_def)
  qed
qed

lemma map_of_set_prop: "map_of (set_prop k v ps) = (map_of ps)(k \<mapsto> v)"
  by (induction ps) (auto simp: fun_eq_iff)

lemma new_Error_not_fatal: "\<not> is_fatal (new_Error msg)"
  by (simp add: is_fatal_def new_Error_def)

lemma TypeError_not_fatal: "\<not> is_fatal (TypeError_undefined prop)"
  by (simp add: is_fatal_def TypeError_undefined_def)

text \<open>
  The discarding branch of the \<^verbatim>\<open>catch\<close> block is reached by a rejection that carries a
  fatal code itself.
\<close>

lemma uploadData_rejected_fatal:
  assumes tx: "getNextCrudTransaction w = Some tx"
    and k: "k < length tx"
    and kinds: "\<forall>i\<le>k. op (tx ! i) \<in> {PUT, PATCH, DELETE}"
    and ok: "\<forall>i<k. be i = Resolved None"
    and rej: "be k = Rejected ex"
    and fatal: "is_fatal ex"
  shows "fst (uploadData be w) = Inr () \<and>
         completes (snd (uploadData be w)) = Suc (completes w) \<and>
         crud_queue (snd (uploadData be w)) = tl (crud_queue w)"
proof -
  from kinds ok have ok': "\<forall>i<k. op (tx ! i) \<in> {PUT, PATCH, DELETE} \<and> be i = Resolved None"
    by simp
  from kinds have kind: "op (tx ! k) \<in> {PUT, PATCH, DELETE}" by simp
  from tx crud_loop_rejected [OF k ok' kind rej, of w] fatal
  show ?thesis by (simp add: uploadData_def complete_def)
qed

subsection \<open>Initialisation\<close>






lemma registerListener_distinct:
  "distinct (map listener_id (listeners c)) \<Longrightarrow>
   distinct (map listener_id (listeners (registerListener l c)))"
  by (simp add: registerListener_def)

lemma dispose_distinct:
  "distinct (map listener_id (listeners c)) \<Longrightarrow>
   distinct (map listener_id (listeners (dispose n c)))"
  by (simp add: dispose_def distinct_map_filter)





section \<open>The upload of a transaction\<close>

text \<open>
  C1. A transaction in which entry \<open>k\<close> is the first to receive a fault with a fatal
  code is to be discarded: the entries up to \<open>k\<close> are sent, the later ones are not, the
  transaction is completed and the call returns. The connector does not do so. It throws
  a new \<^verbatim>\<open>Error\<close> built from the message of \<^verbatim>\<open>result.error\<close> alone, the \<^verbatim>\<open>catch\<close> block
  finds no \<^verbatim>\<open>code\<close> on it and rethrows. Below, the second of three entries receives the
  foreign-key violation \<^verbatim>\<open>23503\<close>, which the patterns match: the call throws, and the
  transaction stays in the queue with no completion written.
\<close>

theorem uploadData_fatal_fault_not_discarded:
  "is_fatal \<lparr>name = ''PostgrestError'', message = ''violates foreign key constraint'', code = JsString ''23503''\<rparr> \<and>
   uploadData
     (\<lambda>n. if n = 1
           then Resolved (Some \<lparr>name = ''PostgrestError'', message = ''violates foreign key constraint'',
                                code = JsString ''23503''\<rparr>)
           else Resolved None)
     \<lparr>crud_queue =
        [[\<lparr>table = ''lists'', op = DELETE, id' = ''l1'', opData = None\<rparr>,
          \<lparr>table = ''todos'', op = PUT, id' = ''t1'', opData = Some [(''list_id'', JsString ''l1'')]\<rparr>,
          \<lparr>table = ''todos'', op = PATCH, id' = ''t1'', opData = Some [(''completed'', JsNumber 1)]\<rparr>]],
      completes = 0, sent = []\<rparr>
   = (Inl (new_Error ''Could not update Supabase. Received error: violates foreign key constraint''),
      \<lparr>crud_queue =
        [[\<lparr>table = ''lists'', op = DELETE, id' = ''l1'', opData = None\<rparr>,
          \<lparr>table = ''todos'', op = PUT, id' = ''t1'', opData = Some [(''list_id'', JsString ''l1'')]\<rparr>,
          \<lparr>table = ''todos'', op = PATCH, id' = ''t1'', opData = Some [(''completed'', JsNumber 1)]\<rparr>]],
       completes = 0,
       sent = [Delete ''lists'' (Eq ''id'' ''l1''),
               Upsert ''todos'' [(''list_id'', JsString ''l1''), (''id'', JsString ''t1'')]]\<rparr>)"
  by (simp add: uploadData_def getNextCrudTransaction_def request_for_def is_fatal_def
      new_Error_def FATAL_RESPONSE_CODES_def)

text \<open>
  C2. When entry \<open>k\<close> of the pending transaction is the first to receive a fault, and the
  patterns do not match the fault, the requests of the entries up to and including
  \<open>k\<close> have been sent and no other, the transaction is not completed and stays in the
  queue, and the call throws.
\<close>

theorem uploadData_transient_fault:
  assumes tx: "getNextCrudTransaction w = Some tx"
    and k: "k < length tx"
    and kinds: "\<forall>i\<le>k. op (tx ! i) \<in> {PUT, PATCH, DELETE}"
    and ok: "\<forall>i<k. be i = Resolved None"
    and fault: "be k = Resolved (Some err)"
    and transient: "\<not> is_fatal err"
  shows "fst (uploadData be w)
           = Inl (new_Error (''Could not update Supabase. Received error: '' @ message err)) \<and>
         map Some (sent (snd (uploadData be w)))
           = map Some (sent w) @ map request_for (take (Suc k) tx) \<and>
         completes (snd (uploadData be w)) = completes w \<and>
         crud_queue (snd (uploadData be w)) = crud_queue w"
proof -
  from kinds ok have ok': "\<forall>i<k. op (tx ! i) \<in> {PUT, PATCH, DELETE} \<and> be i = Resolved None"
    by simp
  from kinds have kind: "op (tx ! k) \<in> {PUT, PATCH, DELETE}" by simp
  from kinds have "\<forall>i<Suc k. request_for (tx ! i) \<noteq> None"
    using request_for_known by (simp add: less_Suc_eq_le)
  with k have reqs: "map Some (map (the \<circ> request_for) (take (Suc k) tx))
                      = map request_for (take (Suc k) tx)"
    using take_requests [of "Suc k" tx] by simp
  from tx crud_loop_fault [OF k ok' kind fault, of w] reqs new_Error_not_fatal
  show ?thesis by (simp add: uploadData_def)
qed

theorem uploadData_transient_fault_witness:
  "let tx = [\<lparr>table = ''todos'', op = PUT, id' = ''t1'', opData = Some [(''description'', JsString ''milk'')]\<rparr>,
             \<lparr>table = ''todos'', op = PATCH, id' = ''t1'', opData = Some [(''completed'', JsNumber 1)]\<rparr>,
             \<lparr>table = ''todos'', op = DELETE, id' = ''t1'', opData = None\<rparr>];
       w = \<lparr>crud_queue = [tx], completes = 0, sent = []\<rparr>;
       err = \<lparr>name = ''PostgrestError'', message = ''connection failure'', code = JsString ''08006''\<rparr>;
       be = (\<lambda>n. if n = 1 then Resolved (Some err) else Resolved None)
   in getNextCrudTransaction w = Some tx \<and> 1 < length tx \<and>
      (\<forall>i\<le>1. op (tx ! i) \<in> {PUT, PATCH, DELETE}) \<and> (\<forall>i<1. be i = Resolved None) \<and>
      be 1 = Resolved (Some err) \<and> \<not> is_fatal err \<and>
      uploadData be w
        = (Inl (new_Error ''Could not update Supabase. Received error: connection failure''),
           \<lparr>crud_queue = [tx], completes = 0,
            sent = [Upsert ''todos'' [(''description'', JsString ''milk''), (''id'', JsString ''t1'')],
                    Update ''todos'' (Some [(''completed'', JsNumber 1)]) (Eq ''id'' ''t1'')]\<rparr>)"
proof -
  let ?tx = "[\<lparr>table = ''todos'', op = PUT, id' = ''t1'', opData = Some [(''description'', JsString ''milk'')]\<rparr>,
             \<lparr>table = ''todos'', op = PATCH, id' = ''t1'', opData = Some [(''completed'', JsNumber 1)]\<rparr>,
             \<lparr>table = ''todos'', op = DELETE, id' = ''t1'', opData = None\<rparr>]"
  let ?w = "\<lparr>crud_queue = [?tx], completes = 0, sent = []\<rparr>"
  let ?err = "\<lparr>name = ''PostgrestError'', message = ''connection failure'', code = JsString ''08006''\<rparr>"
  let ?be = "\<lambda>n::nat. if n = 1 then Resolved (Some ?err) else Resolved None"
  have h1: "getNextCrudTransaction ?w = Some ?tx" by (simp add: getNextCrudTransaction_def)
  have h2: "1 < length ?tx" by simp
  have h3: "\<forall>i\<le>1. op (?tx ! i) \<in> {PUT, PATCH, DELETE}" by (simp add: le_Suc_eq)
  have h4: "\<forall>i<1. ?be i = Resolved None" by simp
  have h5: "?be 1 = Resolved (Some ?err)" by simp
  have h6: "\<not> is_fatal ?err" by (simp add: is_fatal_def FATAL_RESPONSE_CODES_def)
  from uploadData_transient_fault [OF h1 h2 h3 h4 h5 h6]
  have "uploadData ?be ?w
        = (Inl (new_Error ''Could not update Supabase. Received error: connection failure''),
           \<lparr>crud_queue = [?tx], completes = 0,
            sent = [Upsert ''todos'' [(''description'', JsString ''milk''), (''id'', JsString ''t1'')],
                    Update ''todos'' (Some [(''completed'', JsNumber 1)]) (Eq ''id'' ''t1'')]\<rparr>)"
    by (cases "uploadData ?be ?w") (auto simp: request_for_def map_eq_Cons_conv)
  with h1 h2 h3 h4 h5 h6 show ?thesis unfolding Let_def by blast
qed

text \<open>
  C3. With a transaction pending, whatever the backend answers, exactly one of two things
  holds when the call is over: it returned, one completion was written and the
  transaction left the queue; or it threw, no completion was written and the queue is as
  it was.
\<close>

theorem uploadData_complete_or_pending:
  assumes "getNextCrudTransaction w = Some tx"
  shows "(fst (uploadData be w) = Inr () \<and>
          completes (snd (uploadData be w)) = Suc (completes w) \<and>
          crud_queue (snd (uploadData be w)) = tl (crud_queue w))
         \<noteq>
         (isl (fst (uploadData be w)) \<and>
          completes (snd (uploadData be w)) = completes w \<and>
          crud_queue (snd (uploadData be w)) = crud_queue w)"
  using uploadData_store [OF assms, of be] by auto

theorem uploadData_complete_or_pending_witness:
  "let tx = [\<lparr>table = ''todos'', op = PUT, id' = ''t1'', opData = None\<rparr>,
             \<lparr>table = ''todos'', op = DELETE, id' = ''t2'', opData = None\<rparr>];
       w = \<lparr>crud_queue = [tx], completes = 0, sent = []\<rparr>;
       be = (\<lambda>n. Rejected \<lparr>name = ''PostgrestError'', message = ''duplicate key'', code = JsString ''23505''\<rparr>)
   in getNextCrudTransaction w = Some tx \<and>
      fst (uploadData be w) = Inr () \<and>
      completes (snd (uploadData be w)) = 1 \<and>
      crud_queue (snd (uploadData be w)) = [] \<and>
      \<not> isl (fst (uploadData be w))"
proof -
  let ?tx = "[\<lparr>table = ''todos'', op = PUT, id' = ''t1'', opData = None\<rparr>,
             \<lparr>table = ''todos'', op = DELETE, id' = ''t2'', opData = None\<rparr>]"
  let ?w = "\<lparr>crud_queue = [?tx], completes = 0, sent = []\<rparr>"
  let ?be = "\<lambda>n::nat. Rejected \<lparr>name = ''PostgrestError'', message = ''duplicate key'', code = JsString ''23505''\<rparr>"
  have h1: "getNextCrudTransaction ?w = Some ?tx" by (simp add: getNextCrudTransaction_def)
  have r: "fst (uploadData ?be ?w) = Inr ()"
    by (simp add: uploadData_def getNextCrudTransaction_def request_for_def is_fatal_def
        FATAL_RESPONSE_CODES_def)
  with uploadData_complete_or_pending [OF h1, of ?be]
  have "completes (snd (uploadData ?be ?w)) = 1 \<and> crud_queue (snd (uploadData ?be ?w)) = []"
    by simp
  with h1 r show ?thesis unfolding Let_def by simp
qed

text \<open>
  C4. The fault of a request is to be classified by its code against the patterns:
  \<^verbatim>\<open>23505\<close> and \<^verbatim>\<open>42501\<close> fatal, \<^verbatim>\<open>08006\<close> and any unmatched code retryable. The
  patterns do tell these codes apart, but inside \<^verbatim>\<open>uploadData\<close> they never see the code
  of a fault: a request answered with \<^verbatim>\<open>23505\<close> or with \<^verbatim>\<open>42501\<close> makes the call throw
  and leaves the transaction pending, as a retryable fault does.
\<close>

theorem fatal_code_of_fault_ignored:
  "is_fatal_code (JsString ''23505'') \<and>
   is_fatal_code (JsString ''42501'') \<and>
   \<not> is_fatal_code (JsString ''08006'') \<and>
   uploadData
     (\<lambda>n. Resolved (Some \<lparr>name = ''PostgrestError'', message = ''duplicate key value'', code = JsString ''23505''\<rparr>))
     \<lparr>crud_queue = [[\<lparr>table = ''todos'', op = PUT, id' = ''t1'', opData = None\<rparr>]], completes = 0, sent = []\<rparr>
   = (Inl (new_Error ''Could not update Supabase. Received error: duplicate key value''),
      \<lparr>crud_queue = [[\<lparr>table = ''todos'', op = PUT, id' = ''t1'', opData = None\<rparr>]], completes = 0,
       sent = [Upsert ''todos'' [(''id'', JsString ''t1'')]]\<rparr>) \<and>
   uploadData
     (\<lambda>n. Resolved (Some \<lparr>name = ''PostgrestError'', message = ''permission denied'', code = JsString ''42501''\<rparr>))
     \<lparr>crud_queue = [[\<lparr>table = ''todos'', op = PUT, id' = ''t1'', opData = None\<rparr>]], completes = 0, sent = []\<rparr>
   = (Inl (new_Error ''Could not update Supabase. Received error: permission denied''),
      \<lparr>crud_queue = [[\<lparr>table = ''todos'', op = PUT, id' = ''t1'', opData = None\<rparr>]], completes = 0,
       sent = [Upsert ''todos'' [(''id'', JsString ''t1'')]]\<rparr>)"
  by (simp add: uploadData_def getNextCrudTransaction_def request_for_def is_fatal_def
      new_Error_def FATAL_RESPONSE_CODES_def)

text \<open>
  C5. When every entry of the pending transaction has a listed kind and every request
  succeeds, the requests sent are those of the entries, one each and in the order of the
  transaction, and then the transaction is completed and the call returns.
\<close>

theorem uploadData_all_succeed:
  assumes tx: "getNextCrudTransaction w = Some tx"
    and ok: "\<forall>i<length tx. op (tx ! i) \<in> {PUT, PATCH, DELETE} \<and> be i = Resolved None"
  shows "fst (uploadData be w) = Inr () \<and>
         map Some (sent (snd (uploadData be w))) = map Some (sent w) @ map request_for tx \<and>
         completes (snd (uploadData be w)) = Suc (completes w) \<and>
         crud_queue (snd (uploadData be w)) = tl (crud_queue w)"
proof -
  from ok have ok': "\<forall>i<length tx. request_for (tx ! i) \<noteq> None \<and> be (0 + i) = Resolved None"
    using request_for_known by simp
  have loop: "crud_loop be 0 tx w = (None, w\<lparr>sent := sent w @ map (the \<circ> request_for) tx\<rparr>)"
    using crud_loop_skip [OF le_refl ok', of w] by simp
  have reqs: "map Some (map (the \<circ> request_for) tx) = map request_for tx"
    using take_requests [of "length tx" tx] ok' by simp
  from tx loop reqs show ?thesis
    by (simp add: uploadData_def complete_def)
qed

theorem uploadData_all_succeed_witness:
  "getNextCrudTransaction
     \<lparr>crud_queue =
        [[\<lparr>table = ''todos'', op = PUT, id' = ''a1'', opData = Some [(''description'', JsString ''milk'')]\<rparr>,
          \<lparr>table = ''todos'', op = PATCH, id' = ''a1'', opData = Some [(''completed'', JsNumber 1)]\<rparr>,
          \<lparr>table = ''todos'', op = DELETE, id' = ''a1'', opData = None\<rparr>]],
      completes = 0, sent = []\<rparr>
   = Some [\<lparr>table = ''todos'', op = PUT, id' = ''a1'', opData = Some [(''description'', JsString ''milk'')]\<rparr>,
          \<lparr>table = ''todos'', op = PATCH, id' = ''a1'', opData = Some [(''completed'', JsNumber 1)]\<rparr>,
          \<lparr>table = ''todos'', op = DELETE, id' = ''a1'', opData = None\<rparr>] \<and>
   uploadData (\<lambda>n. Resolved None)
     \<lparr>crud_queue =
        [[\<lparr>table = ''todos'', op = PUT, id' = ''a1'', opData = Some [(''description'', JsString ''milk'')]\<rparr>,
          \<lparr>table = ''todos'', op = PATCH, id' = ''a1'', opData = Some [(''completed'', JsNumber 1)]\<rparr>,
          \<lparr>table = ''todos'', op = DELETE, id' = ''a1'', opData = None\<rparr>]],
      completes = 0, sent = []\<rparr>
   = (Inr (),
      \<lparr>crud_queue = [], completes = 1,
       sent = [Upsert ''todos'' [(''description'', JsString ''milk''), (''id'', JsString ''a1'')],
               Update ''todos'' (Some [(''completed'', JsNumber 1)]) (Eq ''id'' ''a1''),
               Delete ''todos'' (Eq ''id'' ''a1'')]\<rparr>)"
  (is "getNextCrudTransaction ?w = Some ?tx \<and> uploadData ?be ?w = ?r")
proof -
  have h1: "getNextCrudTransaction ?w = Some ?tx"
    by (simp add: getNextCrudTransaction_def)
  have h2: "\<forall>i<length ?tx. op (?tx ! i) \<in> {PUT, PATCH, DELETE} \<and> ?be i = Resolved None"
    by (simp add: less_Suc_eq)
  from uploadData_all_succeed [OF h1 h2]
  have "fst (uploadData ?be ?w) = Inr () \<and>
        map Some (sent (snd (uploadData ?be ?w))) = map Some (sent ?w) @ map request_for ?tx \<and>
        completes (snd (uploadData ?be ?w)) = Suc (completes ?w) \<and>
        crud_queue (snd (uploadData ?be ?w)) = tl (crud_queue ?w)" .
  then have "uploadData ?be ?w = ?r"
    by (cases "uploadData ?be ?w") (auto simp: request_for_def map_eq_Cons_conv)
  with h1 show ?thesis by simp
qed

text \<open>
  C6. With no transaction pending the call returns at once: nothing is sent, nothing is
  completed, nothing is thrown.
\<close>

theorem uploadData_no_transaction:
  "getNextCrudTransaction w = None \<Longrightarrow> uploadData be w = (Inr (), w)"
  by (simp add: uploadData_def)

theorem uploadData_no_transaction_witness:
  "getNextCrudTransaction \<lparr>crud_queue = [], completes = 2, sent = []\<rparr> = None \<and>
   uploadData (\<lambda>n. Rejected (new_Error ''offline'')) \<lparr>crud_queue = [], completes = 2, sent = []\<rparr>
     = (Inr (), \<lparr>crud_queue = [], completes = 2, sent = []\<rparr>)"
proof -
  have h: "getNextCrudTransaction \<lparr>crud_queue = [], completes = 2, sent = []\<rparr> = None"
    by (simp add: getNextCrudTransaction_def)
  from h uploadData_no_transaction [OF h, of "\<lambda>n. Rejected (new_Error ''offline'')"]
  show ?thesis by simp
qed

text \<open>
  C7. Every request sent is the request of the entry at its position, and the request of
  an entry follows its kind: \<^verbatim>\<open>PUT\<close> is an upsert into the entry's table of its data
  with \<^verbatim>\<open>id\<close> set to the entry's id; \<^verbatim>\<open>PATCH\<close> is an update with the entry's data of
  the rows whose \<^verbatim>\<open>id\<close> equals the entry's id; \<^verbatim>\<open>DELETE\<close> deletes the rows whose \<^verbatim>\<open>id\<close>
  equals the entry's id.
\<close>

theorem uploadData_requests_by_kind:
  assumes "getNextCrudTransaction w = Some tx"
  shows "(\<exists>m\<le>length tx. map Some (sent (snd (uploadData be w)))
                           = map Some (sent w) @ map request_for (take m tx)) \<and>
         request_for \<lparr>table = t, op = PUT, id' = i, opData = d\<rparr>
           = Some (Upsert t (set_prop ''id'' (JsString i) (spread d))) \<and>
         map_of (set_prop ''id'' (JsString i) (spread d)) = (map_of (spread d))(''id'' \<mapsto> JsString i) \<and>
         request_for \<lparr>table = t, op = PATCH, id' = i, opData = d\<rparr>
           = Some (Update t d (Eq ''id'' i)) \<and>
         request_for \<lparr>table = t, op = DELETE, id' = i, opData = d\<rparr>
           = Some (Delete t (Eq ''id'' i))"
  using crud_loop_sent [of tx be 0 w] uploadData_sent [OF assms, of be]
  by (simp add: request_for_def map_of_set_prop)

theorem uploadData_requests_by_kind_witness:
  "let tx = [\<lparr>table = ''todos'', op = PUT, id' = ''t1'',
              opData = Some [(''id'', JsString ''stale''), (''description'', JsString ''milk'')]\<rparr>,
             \<lparr>table = ''todos'', op = PATCH, id' = ''t1'', opData = Some [(''completed'', JsNumber 1)]\<rparr>,
             \<lparr>table = ''todos'', op = DELETE, id' = ''t1'', opData = None\<rparr>];
       w = \<lparr>crud_queue = [tx], completes = 0, sent = []\<rparr>
   in getNextCrudTransaction w = Some tx \<and>
      sent (snd (uploadData (\<lambda>n. Resolved None) w))
        = [Upsert ''todos'' [(''id'', JsString ''t1''), (''description'', JsString ''milk'')],
           Update ''todos'' (Some [(''completed'', JsNumber 1)]) (Eq ''id'' ''t1''),
           Delete ''todos'' (Eq ''id'' ''t1'')]"
proof -
  let ?tx = "[\<lparr>table = ''todos'', op = PUT, id' = ''t1'',
              opData = Some [(''id'', JsString ''stale''), (''description'', JsString ''milk'')]\<rparr>,
             \<lparr>table = ''todos'', op = PATCH, id' = ''t1'', opData = Some [(''completed'', JsNumber 1)]\<rparr>,
             \<lparr>table = ''todos'', op = DELETE, id' = ''t1'', opData = None\<rparr>]"
  let ?w = "\<lparr>crud_queue = [?tx], completes = 0, sent = []\<rparr>"
  let ?be = "\<lambda>n::nat. Resolved None"
  have h1: "getNextCrudTransaction ?w = Some ?tx" by (simp add: getNextCrudTransaction_def)
  have len: "length (sent (snd (uploadData ?be ?w))) = 3"
    by (simp add: uploadData_def getNextCrudTransaction_def request_for_def complete_def)
  from uploadData_requests_by_kind [OF h1, of ?be]
  obtain m where m: "m \<le> length ?tx"
    and eq: "map Some (sent (snd (uploadData ?be ?w))) = map Some (sent ?w) @ map request_for (take m ?tx)"
    by blast
  from eq have "length (sent (snd (uploadData ?be ?w))) = length (take m ?tx)"
    by (metis append_Nil length_map list.simps(8) world.select_convs(3))
  with len m have "m = 3" by simp
  with eq have "map Some (sent (snd (uploadData ?be ?w))) = map request_for ?tx"
    by simp
  then have "sent (snd (uploadData ?be ?w))
        = [Upsert ''todos'' [(''id'', JsString ''t1''), (''description'', JsString ''milk'')],
           Update ''todos'' (Some [(''completed'', JsNumber 1)]) (Eq ''id'' ''t1''),
           Delete ''todos'' (Eq ''id'' ''t1'')]"
    by (auto simp: request_for_def map_eq_Cons_conv)
  with h1 show ?thesis unfolding Let_def by simp
qed

text \<open>
  C8. A result that carries an error is rethrown as a new \<^verbatim>\<open>Error\<close> that has a message
  and no code. The \<^verbatim>\<open>catch\<close> block therefore never takes it for fatal: whatever the
  code of the error in the result, the call throws and the transaction stays pending.
\<close>

theorem uploadData_fault_rethrown:
  assumes tx: "getNextCrudTransaction w = Some tx"
    and k: "k < length tx"
    and kinds: "\<forall>i\<le>k. op (tx ! i) \<in> {PUT, PATCH, DELETE}"
    and ok: "\<forall>i<k. be i = Resolved None"
    and fault: "be k = Resolved (Some err)"
  shows "(\<exists>ex. fst (uploadData be w) = Inl ex \<and>
               ex = new_Error (''Could not update Supabase. Received error: '' @ message err) \<and>
               code ex = JsUndefined \<and> \<not> is_fatal ex) \<and>
         completes (snd (uploadData be w)) = completes w \<and>
         crud_queue (snd (uploadData be w)) = crud_queue w"
proof -
  from kinds ok have ok': "\<forall>i<k. op (tx ! i) \<in> {PUT, PATCH, DELETE} \<and> be i = Resolved None"
    by simp
  from kinds have kind: "op (tx ! k) \<in> {PUT, PATCH, DELETE}" by simp
  have "code (new_Error (''Could not update Supabase. Received error: '' @ message err)) = JsUndefined"
    by (simp add: new_Error_def)
  with tx crud_loop_fault [OF k ok' kind fault, of w] new_Error_not_fatal
  show ?thesis by (simp add: uploadData_def)
qed

theorem uploadData_fault_rethrown_witness:
  "let tx = [\<lparr>table = ''todos'', op = PUT, id' = ''t1'', opData = Some [(''description'', JsString ''milk'')]\<rparr>,
             \<lparr>table = ''todos'', op = PUT, id' = ''t1'', opData = Some [(''description'', JsString ''eggs'')]\<rparr>];
       w = \<lparr>crud_queue = [tx], completes = 0, sent = []\<rparr>;
       err = \<lparr>name = ''PostgrestError'', message = ''duplicate key'', code = JsString ''23505''\<rparr>;
       be = (\<lambda>n. if n = 1 then Resolved (Some err) else Resolved None)
   in getNextCrudTransaction w = Some tx \<and> 1 < length tx \<and>
      (\<forall>i\<le>1. op (tx ! i) \<in> {PUT, PATCH, DELETE}) \<and> (\<forall>i<1. be i = Resolved None) \<and>
      be 1 = Resolved (Some err) \<and> is_fatal err \<and>
      fst (uploadData be w) = Inl (new_Error ''Could not update Supabase. Received error: duplicate key'') \<and>
      completes (snd (uploadData be w)) = 0 \<and>
      crud_queue (snd (uploadData be w)) = [tx]"
proof -
  let ?tx = "[\<lparr>table = ''todos'', op = PUT, id' = ''t1'', opData = Some [(''description'', JsString ''milk'')]\<rparr>,
             \<lparr>table = ''todos'', op = PUT, id' = ''t1'', opData = Some [(''description'', JsString ''eggs'')]\<rparr>]"
  let ?w = "\<lparr>crud_queue = [?tx], completes = 0, sent = []\<rparr>"
  let ?err = "\<lparr>name = ''PostgrestError'', message = ''duplicate key'', code = JsString ''23505''\<rparr>"
  let ?be = "\<lambda>n::nat. if n = 1 then Resolved (Some ?err) else Resolved None"
  have h1: "getNextCrudTransaction ?w = Some ?tx" by (simp add: getNextCrudTransaction_def)
  have h2: "1 < length ?tx" by simp
  have h3: "\<forall>i\<le>1. op (?tx ! i) \<in> {PUT, PATCH, DELETE}" by (simp add: le_Suc_eq)
  have h4: "\<forall>i<1. ?be i = Resolved None" by simp
  have h5: "?be 1 = Resolved (Some ?err)" by simp
  have h6: "is_fatal ?err" by (simp add: is_fatal_def FATAL_RESPONSE_CODES_def)
  from uploadData_fault_rethrown [OF h1 h2 h3 h4 h5]
  have "fst (uploadData ?be ?w) = Inl (new_Error ''Could not update Supabase. Received error: duplicate key'') \<and>
      completes (snd (uploadData ?be ?w)) = 0 \<and>
      crud_queue (snd (uploadData ?be ?w)) = [?tx]"
    by simp
  with h1 h2 h3 h4 h5 h6 show ?thesis unfolding Let_def by blast
qed

text \<open>
  C9. An entry whose kind is none of \<^verbatim>\<open>PUT\<close>, \<^verbatim>\<open>PATCH\<close> and \<^verbatim>\<open>DELETE\<close> has no request
  sent for it. Reading \<^verbatim>\<open>result.error\<close> fails with a \<^verbatim>\<open>TypeError\<close>, which has no code
  and so is not fatal: the call throws it, and the transaction is not completed and
  stays pending.
\<close>

theorem uploadData_unlisted_kind:
  assumes tx: "getNextCrudTransaction w = Some tx"
    and k: "k < length tx"
    and ok: "\<forall>i<k. op (tx ! i) \<in> {PUT, PATCH, DELETE} \<and> be i = Resolved None"
    and kind: "op (tx ! k) = Unlisted s"
  shows "request_for (tx ! k) = None \<and>
         fst (uploadData be w) = Inl (TypeError_undefined ''error'') \<and>
         code (TypeError_undefined ''error'') = JsUndefined \<and>
         \<not> is_fatal (TypeError_undefined ''error'') \<and>
         map Some (sent (snd (uploadData be w))) = map Some (sent w) @ map request_for (take k tx) \<and>
         completes (snd (uploadData be w)) = completes w \<and>
         crud_queue (snd (uploadData be w)) = crud_queue w"
proof -
  from ok have "\<forall>i<k. request_for (tx ! i) \<noteq> None"
    using request_for_known by simp
  with k have reqs: "map Some (map (the \<circ> request_for) (take k tx)) = map request_for (take k tx)"
    using take_requests [of k tx] by simp
  from kind have none: "request_for (tx ! k) = None" by (simp add: request_for_def)
  have c: "code (TypeError_undefined ''error'') = JsUndefined"
    by (simp add: TypeError_undefined_def)
  from tx crud_loop_unlisted [OF k ok kind, of w] reqs TypeError_not_fatal [of "''error''"] none c
  show ?thesis by (simp add: uploadData_def)
qed

theorem uploadData_unlisted_kind_witness:
  "let tx = [\<lparr>table = ''todos'', op = PUT, id' = ''t1'', opData = None\<rparr>,
             \<lparr>table = ''todos'', op = Unlisted ''TRUNCATE'', id' = ''t1'', opData = None\<rparr>,
             \<lparr>table = ''todos'', op = DELETE, id' = ''t1'', opData = None\<rparr>];
       w = \<lparr>crud_queue = [tx], completes = 0, sent = []\<rparr>;
       be = (\<lambda>n. Resolved None)
   in getNextCrudTransaction w = Some tx \<and> 1 < length tx \<and>
      (\<forall>i<1. op (tx ! i) \<in> {PUT, PATCH, DELETE} \<and> be i = Resolved None) \<and>
      op (tx ! 1) = Unlisted ''TRUNCATE'' \<and>
      uploadData be w
        = (Inl (TypeError_undefined ''error''),
           \<lparr>crud_queue = [tx], completes = 0, sent = [Upsert ''todos'' [(''id'', JsString ''t1'')]]\<rparr>)"
proof -
  let ?tx = "[\<lparr>table = ''todos'', op = PUT, id' = ''t1'', opData = None\<rparr>,
             \<lparr>table = ''todos'', op = Unlisted ''TRUNCATE'', id' = ''t1'', opData = None\<rparr>,
             \<lparr>table = ''todos'', op = DELETE, id' = ''t1'', opData = None\<rparr>]"
  let ?w = "\<lparr>crud_queue = [?tx], completes = 0, sent = []\<rparr>"
  let ?be = "\<lambda>n::nat. Resolved None"
  have h1: "getNextCrudTransaction ?w = Some ?tx" by (simp add: getNextCrudTransaction_def)
  have h2: "1 < length ?tx" by simp
  have h3: "\<forall>i<1. op (?tx ! i) \<in> {PUT, PATCH, DELETE} \<and> ?be i = Resolved None" by simp
  have h4: "op (?tx ! 1) = Unlisted ''TRUNCATE''" by simp
  from uploadData_unlisted_kind [OF h1 h2 h3 h4]
  have "uploadData ?be ?w
        = (Inl (TypeError_undefined ''error''),
           \<lparr>crud_queue = [?tx], completes = 0, sent = [Upsert ''todos'' [(''id'', JsString ''t1'')]]\<rparr>)"
    by (cases "uploadData ?be ?w") (auto simp: request_for_def map_eq_Cons_conv)
  with h1 h2 h3 h4 show ?thesis unfolding Let_def by blast
qed

section \<open>Initialising the connector\<close>




end
